theory Spec2Isabelle
  imports Main "HOL-Library.Sublist"
begin

section \<open>Strings and errors\<close>

text \<open>
  JavaScript strings are modelled as \<open>string\<close> (lists of code units), so that
  \<open>.length\<close> is \<open>length\<close>. \<open>endsWith\<close> and \<open>startsWith\<close> are the
  \<open>String.prototype\<close> methods with their default position.
\<close>

definition endsWith :: "string \<Rightarrow> string \<Rightarrow> bool" where
  "endsWith s searchString = (drop (length s - length searchString) s = searchString)"

definition startsWith :: "string \<Rightarrow> string \<Rightarrow> bool" where
  "startsWith s searchString = (take (length searchString) s = searchString)"

text \<open>
  An error value: the optional \<open>code\<close> of a \<open>NodeJS.ErrnoException\<close> and the
  message. \<open>Error msg\<close> is the plain \<open>Error(msg)\<close> of the source, which has no code.
\<close>

datatype js_error = JsError (errCode: "string option") (errMessage: string)

definition Error :: "string \<Rightarrow> js_error" where
  "Error msg = JsError None msg"

text \<open>A call either returns a value or throws (for an async function: rejects).\<close>

datatype 'a outcome = Returns 'a | Throws js_error

definition quoted :: "string \<Rightarrow> string" where
  "quoted s = [CHR 0x22] @ s @ [CHR 0x22]"

section \<open>The byte-budgeted LRU cache\<close>

text \<open>
  The package \<open>lru-cache\<close> is not part of the sources. The cache is a list of
  key/value entries, most recently used first; the configuration (\<open>maxSize\<close>,
  \<open>sizeCalculation\<close>) is passed to the operations. What happens to an entry whose
  size alone exceeds \<open>maxSize\<close> is left open by the specification (rejected outright,
  or stored and immediately evicted), so it is a parameter of \<open>LRUCache_set\<close>.
\<close>

type_synonym 'v LRUCache = "(string \<times> 'v) list"

datatype oversize_policy = RejectOutright | StoreThenSelfEvict

text \<open>Modelled from the spec: the accounted size of a cache (package \<open>lru-cache\<close>), the
  sum of the entries' sizes, each computed by \<open>sizeCalculation value key\<close>.\<close>

definition accountedSize :: "('v \<Rightarrow> string \<Rightarrow> nat) \<Rightarrow> 'v LRUCache \<Rightarrow> nat" where
  "accountedSize sizeCalculation es = (\<Sum>e\<leftarrow>es. sizeCalculation (snd e) (fst e))"

text \<open>Modelled from the spec: eviction (package \<open>lru-cache\<close>) removes the least recently
  used entry, the last of the list, until the accounted size is within the budget.\<close>

fun evictLRU :: "('v \<Rightarrow> string \<Rightarrow> nat) \<Rightarrow> nat \<Rightarrow> 'v LRUCache \<Rightarrow> 'v LRUCache" where
  "evictLRU sizeCalculation budget es =
     (if es = [] \<or> accountedSize sizeCalculation es \<le> budget then es
      else evictLRU sizeCalculation budget (butlast es))"

declare evictLRU.simps [simp del]

text \<open>Modelled from the spec: \<open>get\<close> of package \<open>lru-cache\<close>. A hit returns the stored
  value and promotes the entry to most recently used; a miss changes nothing.\<close>

definition LRUCache_get :: "string \<Rightarrow> 'v LRUCache \<Rightarrow> 'v option \<times> 'v LRUCache" where
  "LRUCache_get key es =
     (case map_of es key of
        None \<Rightarrow> (None, es)
      | Some v \<Rightarrow> (Some v, (key, v) # filter (\<lambda>e. fst e \<noteq> key) es))"

text \<open>Modelled from the spec: \<open>set\<close> of package \<open>lru-cache\<close>. The entry replaces any
  entry of the same key; least recently used entries are evicted until the new entry
  fits, then it is inserted as most recently used. An entry larger than the whole
  budget is not retained: it is rejected, or stored after everything else was evicted
  and then evicted itself.\<close>

definition LRUCache_set ::
  "oversize_policy \<Rightarrow> ('v \<Rightarrow> string \<Rightarrow> nat) \<Rightarrow> nat \<Rightarrow> string \<Rightarrow> 'v \<Rightarrow> 'v LRUCache \<Rightarrow> 'v LRUCache" where
  "LRUCache_set policy sizeCalculation maxSize key v es =
     (let size = sizeCalculation v key;
          others = filter (\<lambda>e. fst e \<noteq> key) es
      in if maxSize < size then
           (case policy of RejectOutright \<Rightarrow> es | StoreThenSelfEvict \<Rightarrow> [])
         else (key, v) # evictLRU sizeCalculation (maxSize - size) others)"

datatype 'v cache_op = Get string | Set string 'v

fun cache_step ::
  "oversize_policy \<Rightarrow> ('v \<Rightarrow> string \<Rightarrow> nat) \<Rightarrow> nat \<Rightarrow> 'v LRUCache \<Rightarrow> 'v cache_op \<Rightarrow> 'v LRUCache" where
  "cache_step policy sizeCalculation maxSize es (Get key) = snd (LRUCache_get key es)"
| "cache_step policy sizeCalculation maxSize es (Set key v) =
     LRUCache_set policy sizeCalculation maxSize key v es"

definition cache_run ::
  "oversize_policy \<Rightarrow> ('v \<Rightarrow> string \<Rightarrow> nat) \<Rightarrow> nat \<Rightarrow> 'v cache_op list \<Rightarrow> 'v LRUCache" where
  "cache_run policy sizeCalculation maxSize ops =
     foldl (cache_step policy sizeCalculation maxSize) [] ops"

section \<open>The router's closure: collaborators, configuration and state\<close>

text \<open>
  What \<open>transpileCode\<close> resolves to is an object whose \<open>transpiledCode\<close> may be
  undefined; it may also reject. The transpiler and the analyzer are given the inputs
  of their own earlier invocations, so that they need not be deterministic.

  The state of a router instance is its two caches, together with the log of the
  calls made so far to the digest, the caches, the transpiler and the analyzer (an
  instrumented call counter): how often a collaborator was invoked is read off the log.
\<close>

datatype transpile_reply = Rejected js_error | Resolved "string option"

datatype event =
    EvMd5 string
  | EvTranspileCacheGet string
  | EvTranspileCacheSet string string
  | EvTranspileCode string
  | EvAnalyzeCacheGet string
  | EvAnalyzeCacheSet string
  | EvDefaultCodeAnalyzer string

record 'r env =
  md5 :: "string \<Rightarrow> string"
  transpileCode :: "string list \<Rightarrow> string \<Rightarrow> transpile_reply"
  defaultCodeAnalyzer :: "string list \<Rightarrow> string \<Rightarrow> js_error + 'r"
  readFile :: "string \<Rightarrow> js_error + string"
  jsonStringifyLength :: "'r \<Rightarrow> nat"
  maxAnalyzeCacheSize :: nat
  maxTranspileCacheSize :: nat
  oversize :: oversize_policy

record 'r state =
  transpileCache :: "string LRUCache"
  analyzeCache :: "'r LRUCache"
  events :: "event list"

definition emit :: "event \<Rightarrow> 'r state \<Rightarrow> 'r state" where
  "emit e s = s\<lparr>events := events s @ [e]\<rparr>"

fun transpileCalls :: "event list \<Rightarrow> string list" where
  "transpileCalls [] = []"
| "transpileCalls (EvTranspileCode c # es) = c # transpileCalls es"
| "transpileCalls (_ # es) = transpileCalls es"

fun analyzerCalls :: "event list \<Rightarrow> string list" where
  "analyzerCalls [] = []"
| "analyzerCalls (EvDefaultCodeAnalyzer c # es) = c # analyzerCalls es"
| "analyzerCalls (_ # es) = analyzerCalls es"

fun isTranspileCacheSet :: "event \<Rightarrow> bool" where
  "isTranspileCacheSet (EvTranspileCacheSet _ _) = True"
| "isTranspileCacheSet _ = False"

fun isAnalyzeCacheSet :: "event \<Rightarrow> bool" where
  "isAnalyzeCacheSet (EvAnalyzeCacheSet _) = True"
| "isAnalyzeCacheSet _ = False"

definition transpileSize :: "string \<Rightarrow> string \<Rightarrow> nat" where
  "transpileSize v key = length key + length v"

definition analyzeSize :: "'r env \<Rightarrow> 'r \<Rightarrow> string \<Rightarrow> nat" where
  "analyzeSize E v key = length key + jsonStringifyLength E v"

section \<open>maybeTranspile\<close>

datatype TTranspileResult = ITranspileErrorResult js_error | ITranspileSuccessResult string

definition isNative :: "string \<Rightarrow> bool" where
  "isNative filePath = (endsWith filePath ''.js'' \<or> endsWith filePath ''.mjs'')"

definition maybeTranspile ::
  "'r env \<Rightarrow> string \<Rightarrow> string \<Rightarrow> 'r state \<Rightarrow> TTranspileResult outcome \<times> 'r state" where
  "maybeTranspile E filePath code s =
     (if endsWith filePath ''.js'' \<or> endsWith filePath ''.mjs'' then
        (Returns (ITranspileSuccessResult code), s)
      else
        let hash = md5 E code;
            s1 = emit (EvMd5 code) s;
            (cached, cache1) = LRUCache_get hash (transpileCache s1);
            s2 = emit (EvTranspileCacheGet hash) (s1\<lparr>transpileCache := cache1\<rparr>)
        in case cached of
             Some t \<Rightarrow> (Returns (ITranspileSuccessResult t), s2)
           | None \<Rightarrow>
               let reply = transpileCode E (transpileCalls (events s2)) code;
                   s3 = emit (EvTranspileCode code) s2
               in (case reply of
                     Rejected ex \<Rightarrow> (Returns (ITranspileErrorResult ex), s3)
                   | Resolved None \<Rightarrow>
                       (Throws (Error ''BUG: transpiled code is undefined''), s3)
                   | Resolved (Some transpiled) \<Rightarrow>
                       (Returns (ITranspileSuccessResult transpiled),
                        emit (EvTranspileCacheSet hash transpiled)
                          (s3\<lparr>transpileCache :=
                                LRUCache_set (oversize E) transpileSize (maxTranspileCacheSize E)
                                  hash transpiled (transpileCache s3)\<rparr>))))"

section \<open>tryReadScriptAsString\<close>

datatype ETryReadErrorCode = FILE_NOT_FOUND | IO_ERROR

text \<open>The read error built by \<open>createReadError\<close> of package \<open>es6-debug-server\<close>: the
  three fields the source passes.\<close>

datatype read_error =
  ReadError (readCode: ETryReadErrorCode) (readMessage: string) (readCause: js_error)

definition createReadError :: "ETryReadErrorCode \<Rightarrow> string \<Rightarrow> js_error \<Rightarrow> read_error" where
  "createReadError c m e = ReadError c m e"

datatype TTryReadResult = ReadFailed read_error | ReadContent string

definition tryReadScriptAsString ::
  "'r env \<Rightarrow> string \<Rightarrow> 'r state \<Rightarrow> TTryReadResult outcome \<times> 'r state" where
  "tryReadScriptAsString E filePath s =
     (case readFile E filePath of
        Inl readError \<Rightarrow>
          if errCode readError = Some ''ENOENT'' then
            (Returns (ReadFailed
               (createReadError FILE_NOT_FOUND (errMessage readError) readError)), s)
          else
            (Returns (ReadFailed
               (createReadError IO_ERROR (errMessage readError) readError)), s)
      | Inr content \<Rightarrow>
          (case maybeTranspile E filePath content s of
             (Throws e, s') \<Rightarrow> (Throws e, s')
           | (Returns (ITranspileErrorResult transpileError), s') \<Rightarrow>
               (Returns (ReadFailed
                  (createReadError IO_ERROR
                     (''failed to transpile code of '' @ quoted filePath) transpileError)), s')
           | (Returns (ITranspileSuccessResult transpiled), s') \<Rightarrow>
               (Returns (ReadContent transpiled), s')))"

section \<open>analyzeCode\<close>

datatype 'r TAnalyzeResult = AnalyzeError js_error | AnalyzeSuccess 'r

definition analyzeCode :: "'r env \<Rightarrow> string \<Rightarrow> 'r state \<Rightarrow> 'r TAnalyzeResult \<times> 'r state" where
  "analyzeCode E code s =
     (let hash = md5 E code;
          s1 = emit (EvMd5 code) s;
          (cached, cache1) = LRUCache_get hash (analyzeCache s1);
          s2 = emit (EvAnalyzeCacheGet hash) (s1\<lparr>analyzeCache := cache1\<rparr>)
      in case cached of
           Some r \<Rightarrow> (AnalyzeSuccess r, s2)
         | None \<Rightarrow>
             let analyzeResult = defaultCodeAnalyzer E (analyzerCalls (events s2)) code;
                 s3 = emit (EvDefaultCodeAnalyzer code) s2
             in (case analyzeResult of
                   Inl err \<Rightarrow> (AnalyzeError err, s3)
                 | Inr r \<Rightarrow>
                     (AnalyzeSuccess r,
                      emit (EvAnalyzeCacheSet hash)
                        (s3\<lparr>analyzeCache :=
                              LRUCache_set (oversize E) (analyzeSize E) (maxAnalyzeCacheSize E)
                                hash r (analyzeCache s3)\<rparr>))))"

section \<open>Sequences of calls on one router instance\<close>

text \<open>The debug core calls back into the closure; both caches start empty when the
  router is created.\<close>

datatype call =
    CallMaybeTranspile string string
  | CallTryReadScriptAsString string
  | CallAnalyzeCode string

fun call_step :: "'r env \<Rightarrow> 'r state \<Rightarrow> call \<Rightarrow> 'r state" where
  "call_step E s (CallMaybeTranspile filePath code) = snd (maybeTranspile E filePath code s)"
| "call_step E s (CallTryReadScriptAsString filePath) = snd (tryReadScriptAsString E filePath s)"
| "call_step E s (CallAnalyzeCode code) = snd (analyzeCode E code s)"

definition initialState :: "'r state" where
  "initialState = \<lparr>transpileCache = [], analyzeCache = [], events = []\<rparr>"

definition serve :: "'r env \<Rightarrow> call list \<Rightarrow> 'r state" where
  "serve E calls = foldl (call_step E) initialState calls"

text \<open>Both caches are within their byte budgets.\<close>

definition withinBudgets :: "'r env \<Rightarrow> 'r state \<Rightarrow> bool" where
  "withinBudgets E s =
     (accountedSize transpileSize (transpileCache s) \<le> maxTranspileCacheSize E \<and>
      accountedSize (analyzeSize E) (analyzeCache s) \<le> maxAnalyzeCacheSize E)"

section \<open>defaultResolveImportPath\<close>

text \<open>
  The collaborators of the resolver: \<open>pathToFileURL\<close> followed by \<open>toString\<close>,
  \<open>resolve\<close> of package \<open>import-meta-resolve\<close> (which may throw) and
  \<open>fileURLToPath\<close>.
\<close>

record resolver =
  pathToFileURL :: "string \<Rightarrow> string"
  resolveImport :: "string \<Rightarrow> string \<Rightarrow> js_error + string"
  fileURLToPath :: "string \<Rightarrow> string"

datatype TResolveImportPathResult = ResolveError js_error | ResolveSuccess string

definition defaultResolveImportPath ::
  "resolver \<Rightarrow> string \<Rightarrow> string \<Rightarrow> TResolveImportPathResult" where
  "defaultResolveImportPath R importer specifier =
     (let parentUrl = pathToFileURL R importer in
      case resolveImport R specifier parentUrl of
        Inl err \<Rightarrow> ResolveError err
      | Inr resolvedUrl \<Rightarrow>
          if startsWith resolvedUrl ''node:'' then
            ResolveError (Error (''node imports are not supported, got '' @ quoted resolvedUrl))
          else if \<not> startsWith resolvedUrl ''file:'' then
            ResolveError (Error (''only file imports are supported, got '' @ quoted resolvedUrl))
          else ResolveSuccess (fileURLToPath R resolvedUrl))"

section \<open>The router\<close>

record request =
  req_method :: string
  req_url :: string
  req_baseUrl :: string

text \<open>What the first middleware does with a request: it throws, hands the request to
  \<open>server.handleRequest\<close> with the given uri, or calls \<open>next()\<close>.\<close>

datatype middleware_result = Thrown js_error | HandleRequest string | Next

definition defaultFileEndings :: "string list" where
  "defaultFileEndings = [''.js'', ''.ts'']"

definition scriptMiddleware :: "string list \<Rightarrow> request \<Rightarrow> middleware_result" where
  "scriptMiddleware fileEndings req =
     (if req_method req = ''HEAD'' then Thrown (Error ''HEAD not supported yet'')
      else
        let isScript = list_ex (\<lambda>ending. endsWith (req_url req) ending) fileEndings
        in if isScript then HandleRequest (req_url req) else Next)"

text \<open>The router runs the middleware and then \<open>express.static(baseFolder)\<close>.\<close>

datatype router_result = RouterThrown js_error | DebugCore string | ExpressStatic string

definition expressRouter :: "string \<Rightarrow> string list \<Rightarrow> request \<Rightarrow> router_result" where
  "expressRouter baseFolder fileEndings req =
     (case scriptMiddleware fileEndings req of
        Thrown e \<Rightarrow> RouterThrown e
      | HandleRequest uri \<Rightarrow> DebugCore uri
      | Next \<Rightarrow> ExpressStatic baseFolder)"

text \<open>The reading of the specification's words "its URL path": the request URL up to
  the query string.\<close>

definition spec_urlPath :: "string \<Rightarrow> string" where
  "spec_urlPath u = takeWhile (\<lambda>c. c \<noteq> CHR ''?'') u"

definition spec_isScript :: "string list \<Rightarrow> request \<Rightarrow> bool" where
  "spec_isScript fileEndings req =
     list_ex (\<lambda>ending. endsWith (spec_urlPath (req_url req)) ending) fileEndings"

section \<open>Example collaborators\<close>

text \<open>Concrete collaborators on which the theorems below are instantiated. The digests
  are the MD5 values of the two contents used (\<open>const x = 1;\<close> and the empty
  string); analysis results are represented by their serialisation.\<close>

definition exampleCode :: string where
  "exampleCode = ''const x = 1;''"

definition exampleMd5 :: "string \<Rightarrow> string" where
  "exampleMd5 content =
     (if content = ''const x = 1;'' then ''352f5bbd9ad08d3d3625f0a622e4465c''
      else ''d41d8cd98f00b204e9800998ecf8427e'')"

definition exampleReadFile :: "string \<Rightarrow> js_error + string" where
  "exampleReadFile filePath =
     (if filePath = ''/srv/app.ts'' then Inr ''const x = 1;''
      else if filePath = ''/srv/locked.ts'' then
        Inl (JsError (Some ''EACCES'') ''EACCES: permission denied'')
      else Inl (JsError (Some ''ENOENT'') ''ENOENT: no such file or directory''))"

definition workingEnv :: "string env" where
  "workingEnv =
     \<lparr>md5 = exampleMd5,
      transpileCode = (\<lambda>earlier code. Resolved (Some code)),
      defaultCodeAnalyzer = (\<lambda>earlier code. Inr ''{}''),
      readFile = exampleReadFile,
      jsonStringifyLength = length,
      maxAnalyzeCacheSize = 1 * 1024 * 1024,
      maxTranspileCacheSize = 64 * 1024 * 1024,
      oversize = RejectOutright\<rparr>"

definition failingEnv :: "string env" where
  "failingEnv =
     workingEnv\<lparr>transpileCode := (\<lambda>earlier code. Rejected (Error ''Unexpected token'')),
                defaultCodeAnalyzer := (\<lambda>earlier code. Inl (Error ''Unexpected token''))\<rparr>"

definition brokenEnv :: "string env" where
  "brokenEnv = workingEnv\<lparr>transpileCode := (\<lambda>earlier code. Resolved None)\<rparr>"

definition smallEnv :: "string env" where
  "smallEnv = workingEnv\<lparr>maxTranspileCacheSize := 16\<rparr>"

definition exampleResolver :: resolver where
  "exampleResolver =
     \<lparr>pathToFileURL = (\<lambda>path. ''file://'' @ path),
      resolveImport = (\<lambda>specifier parentUrl.
        if specifier = ''node:fs'' then Inr ''node:fs''
        else if specifier = ''https://example.org/x.js'' then Inr ''https://example.org/x.js''
        else if specifier = ''./util.ts'' then Inr ''file:///srv/util.ts''
        else Inl (JsError (Some ''ERR_MODULE_NOT_FOUND'') ''Cannot find package'')),
      fileURLToPath = drop 7\<rparr>"

definition getRequest :: "string \<Rightarrow> request" where
  "getRequest u = \<lparr>req_method = ''GET'', req_url = u, req_baseUrl = ''''\<rparr>"

definition headRequest :: "string \<Rightarrow> request" where
  "headRequest u = \<lparr>req_method = ''HEAD'', req_url = u, req_baseUrl = ''''\<rparr>"

section \<open>Properties of the string tests\<close>

lemma endsWith_iff_suffix: "endsWith s searchString \<longleftrightarrow> suffix searchString s"
proof
  assume "endsWith s searchString"
  then have "s = take (length s - length searchString) s @ searchString"
    unfolding endsWith_def by (metis append_take_drop_id)
  then show "suffix searchString s"
    by (rule suffixI)
next
  assume "suffix searchString s"
  then obtain zs where "s = zs @ searchString"
    by (auto simp: suffix_def)
  then show "endsWith s searchString"
    by (simp add: endsWith_def)
qed

lemma startsWith_iff_prefix: "startsWith s searchString \<longleftrightarrow> prefix searchString s"
proof
  assume "startsWith s searchString"
  then have "s = searchString @ drop (length searchString) s"
    unfolding startsWith_def by (metis append_take_drop_id)
  then show "prefix searchString s"
    by (rule prefixI)
next
  assume "prefix searchString s"
  then obtain zs where "s = searchString @ zs"
    by (auto simp: prefix_def)
  then show "startsWith s searchString"
    by (simp add: startsWith_def)
qed

section \<open>Properties of the cache\<close>

lemma accountedSize_Nil: "accountedSize sz [] = 0"
  by (simp add: accountedSize_def)

lemma accountedSize_Cons:
  "accountedSize sz (e # es) = sz (snd e) (fst e) + accountedSize sz es"
  by (simp add: accountedSize_def)

lemma accountedSize_filter_split:
  "accountedSize sz es = accountedSize sz (filter P es) + accountedSize sz (filter (\<lambda>e. \<not> P e) es)"
  by (induction es) (simp_all add: accountedSize_Nil accountedSize_Cons)

lemma accountedSize_member_le:
  "e \<in> set es \<Longrightarrow> sz (snd e) (fst e) \<le> accountedSize sz es"
  by (induction es) (auto simp: accountedSize_Cons)

lemma evictLRU_within: "accountedSize sz (evictLRU sz budget es) \<le> budget"
proof (induction sz budget es rule: evictLRU.induct)
  case (1 sz budget es)
  show ?case
  proof (cases "es = [] \<or> accountedSize sz es \<le> budget")
    case True
    then show ?thesis
      by (subst evictLRU.simps) (auto simp: accountedSize_Nil)
  next
    case False
    with "1.IH" show ?thesis
      by (subst evictLRU.simps) simp
  qed
qed

lemma evictLRU_length_le: "length (evictLRU sz budget es) \<le> length es"
proof (induction sz budget es rule: evictLRU.induct)
  case (1 sz budget es)
  show ?case
  proof (cases "es = [] \<or> accountedSize sz es \<le> budget")
    case True
    then show ?thesis
      by (subst evictLRU.simps) auto
  next
    case False
    then have "length (evictLRU sz budget (butlast es)) \<le> length (butlast es)"
      using "1.IH" by simp
    then show ?thesis
      using False by (subst evictLRU.simps) simp
  qed
qed

lemma evictLRU_take: "evictLRU sz budget es = take (length (evictLRU sz budget es)) es"
proof (induction sz budget es rule: evictLRU.induct)
  case (1 sz budget es)
  show ?case
  proof (cases "es = [] \<or> accountedSize sz es \<le> budget")
    case True
    then have "evictLRU sz budget es = es"
      by (subst evictLRU.simps) auto
    then show ?thesis by simp
  next
    case False
    let ?r = "evictLRU sz budget (butlast es)"
    have r: "evictLRU sz budget es = ?r"
      using False by (subst evictLRU.simps) simp
    have "length ?r \<le> length (butlast es)"
      by (rule evictLRU_length_le)
    moreover have "length (butlast es) < length es"
      using False by simp
    ultimately have lt: "length ?r < length es"
      by simp
    have "?r = take (length ?r) (butlast es)"
      using "1.IH" False by simp
    also have "\<dots> = take (length ?r) es"
      using lt by (rule take_butlast)
    finally show ?thesis
      using r by simp
  qed
qed

lemma evictLRU_no_more_than_needed:
  "length (evictLRU sz budget es) < length es \<Longrightarrow>
     budget < accountedSize sz (take (Suc (length (evictLRU sz budget es))) es)"
proof (induction sz budget es rule: evictLRU.induct)
  case (1 sz budget es)
  show ?case
  proof (cases "es = [] \<or> accountedSize sz es \<le> budget")
    case True
    then have "evictLRU sz budget es = es"
      by (subst evictLRU.simps) auto
    with "1.prems" show ?thesis by simp
  next
    case False
    let ?r = "evictLRU sz budget (butlast es)"
    have r: "evictLRU sz budget es = ?r"
      using False by (subst evictLRU.simps) simp
    have le: "length ?r \<le> length (butlast es)"
      by (rule evictLRU_length_le)
    show ?thesis
    proof (cases "length ?r < length (butlast es)")
      case True
      then have "budget < accountedSize sz (take (Suc (length ?r)) (butlast es))"
        using "1.IH" False by simp
      moreover have "Suc (length ?r) < length es"
        using True by simp
      then have "take (Suc (length ?r)) (butlast es) = take (Suc (length ?r)) es"
        by (rule take_butlast)
      ultimately show ?thesis
        using r by simp
    next
      case all_kept: False
      with le have "length ?r = length (butlast es)"
        by simp
      moreover have "0 < length es"
        using False by simp
      ultimately have "Suc (length ?r) = length es"
        by simp
      then show ?thesis
        using r False by simp
    qed
  qed
qed

lemma get_hit_size:
  assumes "map_of es k = Some v"
  shows "accountedSize sz ((k, v) # filter (\<lambda>e. fst e \<noteq> k) es) \<le> accountedSize sz es"
proof -
  have "(k, v) \<in> set (filter (\<lambda>e. fst e = k) es)"
    using assms by (auto dest: map_of_SomeD)
  then have "sz v k \<le> accountedSize sz (filter (\<lambda>e. fst e = k) es)"
    using accountedSize_member_le [of "(k, v)" _ sz] by simp
  moreover have "accountedSize sz es = accountedSize sz (filter (\<lambda>e. fst e = k) es)
      + accountedSize sz (filter (\<lambda>e. fst e \<noteq> k) es)"
    by (rule accountedSize_filter_split)
  ultimately show ?thesis by (simp add: accountedSize_Cons)
qed

lemma LRUCache_get_within:
  "accountedSize sz es \<le> maxSize \<Longrightarrow> accountedSize sz (snd (LRUCache_get k es)) \<le> maxSize"
  using get_hit_size [of es k _ sz]
  by (auto simp: LRUCache_get_def split: option.splits intro: order_trans)

lemma LRUCache_set_within:
  "accountedSize sz es \<le> maxSize \<Longrightarrow>
     accountedSize sz (LRUCache_set pol sz maxSize k v es) \<le> maxSize"
  using evictLRU_within [of sz "maxSize - sz v k" "filter (\<lambda>e. fst e \<noteq> k) es"]
  by (auto simp: LRUCache_set_def Let_def accountedSize_Cons accountedSize_Nil
      split: oversize_policy.splits)

lemma cache_step_within:
  "accountedSize sz es \<le> maxSize \<Longrightarrow> accountedSize sz (cache_step pol sz maxSize es c) \<le> maxSize"
  by (cases c) (simp_all add: LRUCache_get_within LRUCache_set_within)

lemma cache_fold_within:
  "accountedSize sz es \<le> maxSize \<Longrightarrow>
     accountedSize sz (foldl (cache_step pol sz maxSize) es ops) \<le> maxSize"
  by (induction ops arbitrary: es) (simp_all add: cache_step_within)

lemma cache_run_within: "accountedSize sz (cache_run pol sz maxSize ops) \<le> maxSize"
  unfolding cache_run_def by (rule cache_fold_within) (simp add: accountedSize_Nil)

lemma LRUCache_set_shape:
  assumes "sz v k \<le> maxSize"
  shows "\<exists>n. n \<le> length (filter (\<lambda>e. fst e \<noteq> k) es) \<and>
           LRUCache_set pol sz maxSize k v es = (k, v) # take n (filter (\<lambda>e. fst e \<noteq> k) es) \<and>
           (n < length (filter (\<lambda>e. fst e \<noteq> k) es) \<longrightarrow>
              maxSize < sz v k + accountedSize sz (take (Suc n) (filter (\<lambda>e. fst e \<noteq> k) es)))"
proof -
  let ?others = "filter (\<lambda>e. fst e \<noteq> k) es"
  let ?n = "length (evictLRU sz (maxSize - sz v k) ?others)"
  have "LRUCache_set pol sz maxSize k v es = (k, v) # take ?n ?others"
    using assms evictLRU_take [of sz "maxSize - sz v k" ?others]
    by (simp add: LRUCache_set_def Let_def)
  moreover have "?n \<le> length ?others"
    by (rule evictLRU_length_le)
  moreover have "maxSize < sz v k + accountedSize sz (take (Suc ?n) ?others)"
    if "?n < length ?others"
  proof -
    from that have "maxSize - sz v k < accountedSize sz (take (Suc ?n) ?others)"
      by (rule evictLRU_no_more_than_needed)
    then show ?thesis by simp
  qed
  ultimately show ?thesis by blast
qed

lemma LRUCache_get_hit:
  "map_of es k = Some v \<Longrightarrow>
     LRUCache_get k es = (Some v, (k, v) # filter (\<lambda>e. fst e \<noteq> k) es)"
  by (simp add: LRUCache_get_def)

lemma fst_LRUCache_get: "fst (LRUCache_get k es) = map_of es k"
  by (simp add: LRUCache_get_def split: option.splits)

lemma LRUCache_set_retains:
  "sz v k \<le> maxSize \<Longrightarrow> map_of (LRUCache_set pol sz maxSize k v es) k = Some v"
  by (simp add: LRUCache_set_def Let_def)

lemma LRUCache_set_one_entry:
  "sz v k \<le> maxSize \<Longrightarrow>
     filter (\<lambda>e. fst e = k) (LRUCache_set pol sz maxSize k v es) = [(k, v)]"
proof -
  assume "sz v k \<le> maxSize"
  then obtain n where "LRUCache_set pol sz maxSize k v es
      = (k, v) # take n (filter (\<lambda>e. fst e \<noteq> k) es)"
    using LRUCache_set_shape [of sz v k maxSize es pol] by blast
  moreover have "filter (\<lambda>e. fst e = k) (take n (filter (\<lambda>e. fst e \<noteq> k) es)) = []"
    by (auto simp: filter_empty_conv dest: in_set_takeD)
  ultimately show ?thesis by simp
qed

lemma recently_used_outlives_older:
  assumes hit: "fst (LRUCache_get key es) = Some v"
    and other: "key' \<noteq> key"
    and fits: "sz v' key' \<le> maxSize"
    and evicted: "key \<notin> fst ` set (LRUCache_set policy sz maxSize key' v' (snd (LRUCache_get key es)))"
  shows "LRUCache_set policy sz maxSize key' v' (snd (LRUCache_get key es)) = [(key', v')]"
proof -
  let ?rest = "filter (\<lambda>e. fst e \<noteq> key) es"
  have "map_of es key = Some v"
    using hit by (simp add: fst_LRUCache_get)
  then have promoted: "snd (LRUCache_get key es) = (key, v) # ?rest"
    by (simp add: LRUCache_get_hit)
  have others: "filter (\<lambda>e. fst e \<noteq> key') ((key, v) # ?rest)
      = (key, v) # filter (\<lambda>e. fst e \<noteq> key') ?rest"
    using other by simp
  obtain n where shape: "LRUCache_set policy sz maxSize key' v' ((key, v) # ?rest)
      = (key', v') # take n ((key, v) # filter (\<lambda>e. fst e \<noteq> key') ?rest)"
    using LRUCache_set_shape [of sz v' key' maxSize "(key, v) # ?rest" policy] fits
    unfolding others by blast
  have "n = 0"
  proof (rule ccontr)
    assume "n \<noteq> 0"
    then obtain m where "n = Suc m"
      by (cases n) simp_all
    then have "key \<in> fst ` set (LRUCache_set policy sz maxSize key' v' ((key, v) # ?rest))"
      by (simp add: shape)
    with evicted show False
      by (simp add: promoted)
  qed
  then show ?thesis
    by (simp add: promoted shape)
qed

lemma recently_used_outlives_all_older:
  assumes hit: "fst (LRUCache_get key es) = Some v"
    and other: "key' \<noteq> key"
    and evicted: "key \<notin> fst ` set (LRUCache_set policy sz maxSize key' v' (snd (LRUCache_get key es)))"
  shows "filter (\<lambda>e. fst e \<noteq> key')
     (LRUCache_set policy sz maxSize key' v' (snd (LRUCache_get key es))) = []"
proof (cases "sz v' key' \<le> maxSize")
  case True
  from recently_used_outlives_older [OF hit other True evicted] show ?thesis
    by simp
next
  case False
  have "map_of es key = Some v"
    using hit by (simp add: fst_LRUCache_get)
  then have promoted: "snd (LRUCache_get key es) = (key, v) # filter (\<lambda>e. fst e \<noteq> key) es"
    by (simp add: LRUCache_get_hit)
  show ?thesis
  proof (cases policy)
    case RejectOutright
    with False evicted show ?thesis
      by (simp add: LRUCache_set_def Let_def promoted)
  next
    case StoreThenSelfEvict
    with False show ?thesis
      by (simp add: LRUCache_set_def Let_def)
  qed
qed

section \<open>Properties of the callbacks\<close>

lemma transpileCalls_append: "transpileCalls (xs @ ys) = transpileCalls xs @ transpileCalls ys"
  by (induction xs rule: transpileCalls.induct) simp_all

lemma analyzerCalls_append: "analyzerCalls (xs @ ys) = analyzerCalls xs @ analyzerCalls ys"
  by (induction xs rule: analyzerCalls.induct) simp_all

lemma maybeTranspile_native:
  "isNative filePath \<Longrightarrow>
     maybeTranspile E filePath code s = (Returns (ITranspileSuccessResult code), s)"
  by (simp add: maybeTranspile_def isNative_def)

lemma maybeTranspile_hit:
  assumes "\<not> isNative filePath" and "map_of (transpileCache s) (md5 E code) = Some t"
  shows "maybeTranspile E filePath code s =
     (Returns (ITranspileSuccessResult t),
      s\<lparr>transpileCache := (md5 E code, t) # filter (\<lambda>e. fst e \<noteq> md5 E code) (transpileCache s),
        events := events s @ [EvMd5 code, EvTranspileCacheGet (md5 E code)]\<rparr>)"
  using assms
  by (simp add: maybeTranspile_def isNative_def Let_def emit_def LRUCache_get_def)

lemma maybeTranspile_rejected:
  assumes "\<not> isNative filePath" and "map_of (transpileCache s) (md5 E code) = None"
    and "transpileCode E (transpileCalls (events s)) code = Rejected ex"
  shows "maybeTranspile E filePath code s =
     (Returns (ITranspileErrorResult ex),
      s\<lparr>events := events s @ [EvMd5 code, EvTranspileCacheGet (md5 E code), EvTranspileCode code]\<rparr>)"
  using assms
  by (simp add: maybeTranspile_def isNative_def Let_def emit_def LRUCache_get_def
      transpileCalls_append)

lemma maybeTranspile_undefined:
  assumes "\<not> isNative filePath" and "map_of (transpileCache s) (md5 E code) = None"
    and "transpileCode E (transpileCalls (events s)) code = Resolved None"
  shows "maybeTranspile E filePath code s =
     (Throws (Error ''BUG: transpiled code is undefined''),
      s\<lparr>events := events s @ [EvMd5 code, EvTranspileCacheGet (md5 E code), EvTranspileCode code]\<rparr>)"
  using assms
  by (simp add: maybeTranspile_def isNative_def Let_def emit_def LRUCache_get_def
      transpileCalls_append)

lemma maybeTranspile_transpiled:
  assumes "\<not> isNative filePath" and "map_of (transpileCache s) (md5 E code) = None"
    and "transpileCode E (transpileCalls (events s)) code = Resolved (Some t)"
  shows "maybeTranspile E filePath code s =
     (Returns (ITranspileSuccessResult t),
      s\<lparr>transpileCache :=
          LRUCache_set (oversize E) transpileSize (maxTranspileCacheSize E) (md5 E code) t
            (transpileCache s),
        events := events s @ [EvMd5 code, EvTranspileCacheGet (md5 E code), EvTranspileCode code,
          EvTranspileCacheSet (md5 E code) t]\<rparr>)"
  using assms
  by (simp add: maybeTranspile_def isNative_def Let_def emit_def LRUCache_get_def
      transpileCalls_append)

text \<open>After a successful call whose entry fits the budget, the digest is cached with
  the returned string, and the transpiler was invoked at most once.\<close>

lemma maybeTranspile_success_cached:
  assumes nonnative: "\<not> isNative filePath"
    and first: "maybeTranspile E filePath code s0 = (Returns (ITranspileSuccessResult t), s1)"
    and fits: "transpileSize t (md5 E code) \<le> maxTranspileCacheSize E"
  shows "map_of (transpileCache s1) (md5 E code) = Some t"
    and "filter (\<lambda>e. fst e = md5 E code) (transpileCache s1) = [(md5 E code, t)]"
    and "length (transpileCalls (events s1)) \<le> Suc (length (transpileCalls (events s0)))"
proof -
  let ?h = "md5 E code"
  show "map_of (transpileCache s1) ?h = Some t"
   and "filter (\<lambda>e. fst e = ?h) (transpileCache s1) = [(?h, t)]"
   and "length (transpileCalls (events s1)) \<le> Suc (length (transpileCalls (events s0)))"
  proof (atomize (full), cases "map_of (transpileCache s0) ?h")
    case (Some t0)
    from maybeTranspile_hit [OF nonnative Some] first
    have "t0 = t" and s1: "s1 = s0\<lparr>transpileCache := (?h, t) # filter (\<lambda>e. fst e \<noteq> ?h) (transpileCache s0),
        events := events s0 @ [EvMd5 code, EvTranspileCacheGet ?h]\<rparr>"
      by simp_all
    have "filter (\<lambda>e. fst e = ?h) (filter (\<lambda>e. fst e \<noteq> ?h) (transpileCache s0)) = []"
      by (simp add: filter_empty_conv)
    then show "map_of (transpileCache s1) ?h = Some t \<and>
        filter (\<lambda>e. fst e = ?h) (transpileCache s1) = [(?h, t)] \<and>
        length (transpileCalls (events s1)) \<le> Suc (length (transpileCalls (events s0)))"
      by (simp add: s1 transpileCalls_append)
  next
    case None
    show "map_of (transpileCache s1) ?h = Some t \<and>
        filter (\<lambda>e. fst e = ?h) (transpileCache s1) = [(?h, t)] \<and>
        length (transpileCalls (events s1)) \<le> Suc (length (transpileCalls (events s0)))"
    proof (cases "transpileCode E (transpileCalls (events s0)) code")
      case (Rejected ex)
      from maybeTranspile_rejected [OF nonnative None Rejected] first show ?thesis
        by simp
    next
      case (Resolved r)
      show ?thesis
      proof (cases r)
        case None2: None
        from maybeTranspile_undefined [OF nonnative None] Resolved None2 first show ?thesis
          by simp
      next
        case (Some t')
        from maybeTranspile_transpiled [OF nonnative None] Resolved Some first
        have "t' = t" and s1: "s1 = s0\<lparr>transpileCache :=
            LRUCache_set (oversize E) transpileSize (maxTranspileCacheSize E) ?h t (transpileCache s0),
          events := events s0 @ [EvMd5 code, EvTranspileCacheGet ?h, EvTranspileCode code,
            EvTranspileCacheSet ?h t]\<rparr>"
          by simp_all
        show ?thesis
          using fits
          by (simp add: s1 transpileCalls_append LRUCache_set_retains LRUCache_set_one_entry)
      qed
    qed
  qed
qed

lemma maybeTranspile_miss_invokes:
  assumes "\<not> isNative filePath" and "map_of (transpileCache s) (md5 E code) = None"
  shows "transpileCalls (events (snd (maybeTranspile E filePath code s)))
     = transpileCalls (events s) @ [code]"
proof (cases "transpileCode E (transpileCalls (events s)) code")
  case (Rejected ex)
  from maybeTranspile_rejected [OF assms Rejected] show ?thesis
    by (simp add: transpileCalls_append)
next
  case (Resolved r)
  show ?thesis
  proof (cases r)
    case None
    with maybeTranspile_undefined [OF assms] Resolved show ?thesis
      by (simp add: transpileCalls_append)
  next
    case (Some t)
    with maybeTranspile_transpiled [OF assms] Resolved show ?thesis
      by (simp add: transpileCalls_append)
  qed
qed

lemma maybeTranspile_second_hit:
  assumes "\<not> isNative filePath1" and "\<not> isNative filePath2"
    and first: "maybeTranspile E filePath1 code s0 = (Returns (ITranspileSuccessResult t), s1)"
    and fits: "transpileSize t (md5 E code) \<le> maxTranspileCacheSize E"
  shows "fst (maybeTranspile E filePath2 code s1) = Returns (ITranspileSuccessResult t) \<and>
     transpileCalls (events (snd (maybeTranspile E filePath2 code s1))) = transpileCalls (events s1) \<and>
     length (transpileCalls (events (snd (maybeTranspile E filePath2 code s1))))
       \<le> Suc (length (transpileCalls (events s0))) \<and>
     filter (\<lambda>e. fst e = md5 E code) (transpileCache (snd (maybeTranspile E filePath2 code s1)))
       = [(md5 E code, t)]"
proof -
  note cached = maybeTranspile_success_cached [OF assms(1) first fits]
  have "filter (\<lambda>e. fst e = md5 E code) (filter (\<lambda>e. fst e \<noteq> md5 E code) (transpileCache s1)) = []"
    by (simp add: filter_empty_conv)
  then show ?thesis
    using cached(3) by (simp add: maybeTranspile_hit [OF assms(2) cached(1)] transpileCalls_append)
qed

lemma analyzeCode_hit:
  assumes "map_of (analyzeCache s) (md5 E code) = Some r"
  shows "analyzeCode E code s =
     (AnalyzeSuccess r,
      s\<lparr>analyzeCache := (md5 E code, r) # filter (\<lambda>e. fst e \<noteq> md5 E code) (analyzeCache s),
        events := events s @ [EvMd5 code, EvAnalyzeCacheGet (md5 E code)]\<rparr>)"
  using assms by (simp add: analyzeCode_def Let_def emit_def LRUCache_get_def)

lemma analyzeCode_failed:
  assumes "map_of (analyzeCache s) (md5 E code) = None"
    and "defaultCodeAnalyzer E (analyzerCalls (events s)) code = Inl err"
  shows "analyzeCode E code s =
     (AnalyzeError err,
      s\<lparr>events := events s @ [EvMd5 code, EvAnalyzeCacheGet (md5 E code), EvDefaultCodeAnalyzer code]\<rparr>)"
  using assms
  by (simp add: analyzeCode_def Let_def emit_def LRUCache_get_def analyzerCalls_append)

lemma analyzeCode_analyzed:
  assumes "map_of (analyzeCache s) (md5 E code) = None"
    and "defaultCodeAnalyzer E (analyzerCalls (events s)) code = Inr r"
  shows "analyzeCode E code s =
     (AnalyzeSuccess r,
      s\<lparr>analyzeCache :=
          LRUCache_set (oversize E) (analyzeSize E) (maxAnalyzeCacheSize E) (md5 E code) r
            (analyzeCache s),
        events := events s @ [EvMd5 code, EvAnalyzeCacheGet (md5 E code), EvDefaultCodeAnalyzer code,
          EvAnalyzeCacheSet (md5 E code)]\<rparr>)"
  using assms
  by (simp add: analyzeCode_def Let_def emit_def LRUCache_get_def analyzerCalls_append)

lemma analyzeCode_miss_invokes:
  assumes "map_of (analyzeCache s) (md5 E code) = None"
  shows "analyzerCalls (events (snd (analyzeCode E code s))) = analyzerCalls (events s) @ [code]"
proof (cases "defaultCodeAnalyzer E (analyzerCalls (events s)) code")
  case (Inl err)
  from analyzeCode_failed [OF assms Inl] show ?thesis
    by (simp add: analyzerCalls_append)
next
  case (Inr r)
  from analyzeCode_analyzed [OF assms Inr] show ?thesis
    by (simp add: analyzerCalls_append)
qed

lemma transpile_failure_not_cached:
  assumes "\<not> isNative filePath" and "\<not> isNative filePath'"
    and "fst (LRUCache_get (md5 E code) (transpileCache s)) = None"
    and "transpileCode E (transpileCalls (events s)) code = Rejected ex"
  shows "fst (maybeTranspile E filePath code s) = Returns (ITranspileErrorResult ex) \<and>
     transpileCache (snd (maybeTranspile E filePath code s)) = transpileCache s \<and>
     \<not> list_ex isTranspileCacheSet (drop (length (events s))
         (events (snd (maybeTranspile E filePath code s)))) \<and>
     transpileCalls (events (snd (maybeTranspile E filePath' code
         (snd (maybeTranspile E filePath code s)))))
       = transpileCalls (events s) @ [code, code]"
proof -
  have miss: "map_of (transpileCache s) (md5 E code) = None"
    using assms(3) by (simp add: fst_LRUCache_get)
  note first = maybeTranspile_rejected [OF assms(1) miss assms(4)]
  let ?s1 = "snd (maybeTranspile E filePath code s)"
  have "map_of (transpileCache ?s1) (md5 E code) = None"
    using miss by (simp add: first)
  from maybeTranspile_miss_invokes [OF assms(2) this]
  have "transpileCalls (events (snd (maybeTranspile E filePath' code ?s1)))
      = transpileCalls (events s) @ [code, code]"
    by (simp add: first transpileCalls_append)
  then show ?thesis
    by (simp add: first)
qed

lemma analysis_failure_not_cached:
  assumes "fst (LRUCache_get (md5 E code) (analyzeCache s)) = None"
    and "defaultCodeAnalyzer E (analyzerCalls (events s)) code = Inl err"
  shows "fst (analyzeCode E code s) = AnalyzeError err \<and>
     analyzeCache (snd (analyzeCode E code s)) = analyzeCache s \<and>
     \<not> list_ex isAnalyzeCacheSet (drop (length (events s)) (events (snd (analyzeCode E code s)))) \<and>
     analyzerCalls (events (snd (analyzeCode E code (snd (analyzeCode E code s)))))
       = analyzerCalls (events s) @ [code, code]"
proof -
  have miss: "map_of (analyzeCache s) (md5 E code) = None"
    using assms(1) by (simp add: fst_LRUCache_get)
  note first = analyzeCode_failed [OF miss assms(2)]
  let ?s1 = "snd (analyzeCode E code s)"
  have "map_of (analyzeCache ?s1) (md5 E code) = None"
    using miss by (simp add: first)
  from analyzeCode_miss_invokes [OF this]
  have "analyzerCalls (events (snd (analyzeCode E code ?s1))) = analyzerCalls (events s) @ [code, code]"
    by (simp add: first analyzerCalls_append)
  then show ?thesis
    by (simp add: first)
qed

lemma maybeTranspile_path_independent:
  "\<not> isNative filePath1 \<Longrightarrow> \<not> isNative filePath2 \<Longrightarrow>
     maybeTranspile E filePath1 code s = maybeTranspile E filePath2 code s"
  by (simp add: maybeTranspile_def isNative_def)

lemma maybeTranspile_analyzeCache:
  "analyzeCache (snd (maybeTranspile E filePath code s)) = analyzeCache s"
  by (simp add: maybeTranspile_def Let_def emit_def
      split: prod.splits option.splits transpile_reply.splits)

lemma analyzeCode_transpileCache:
  "transpileCache (snd (analyzeCode E code s)) = transpileCache s"
  by (simp add: analyzeCode_def Let_def emit_def split: prod.splits option.splits sum.splits)

lemma maybeTranspile_within:
  assumes "accountedSize transpileSize (transpileCache s) \<le> maxTranspileCacheSize E"
  shows "accountedSize transpileSize (transpileCache (snd (maybeTranspile E filePath code s)))
     \<le> maxTranspileCacheSize E"
proof (cases "isNative filePath")
  case True
  then show ?thesis
    using assms by (simp add: maybeTranspile_native)
next
  case nonnative: False
  show ?thesis
  proof (cases "map_of (transpileCache s) (md5 E code)")
    case (Some t)
    from get_hit_size [OF Some, of transpileSize] assms show ?thesis
      by (simp add: maybeTranspile_hit [OF nonnative Some])
  next
    case None
    show ?thesis
    proof (cases "transpileCode E (transpileCalls (events s)) code")
      case (Rejected ex)
      then show ?thesis
        using assms by (simp add: maybeTranspile_rejected [OF nonnative None])
    next
      case (Resolved r)
      show ?thesis
      proof (cases r)
        case no_string: None
        with Resolved show ?thesis
          using assms by (simp add: maybeTranspile_undefined [OF nonnative None])
      next
        case (Some t)
        with Resolved show ?thesis
          using assms
          by (simp add: maybeTranspile_transpiled [OF nonnative None] LRUCache_set_within)
      qed
    qed
  qed
qed

lemma analyzeCode_within:
  assumes "accountedSize (analyzeSize E) (analyzeCache s) \<le> maxAnalyzeCacheSize E"
  shows "accountedSize (analyzeSize E) (analyzeCache (snd (analyzeCode E code s)))
     \<le> maxAnalyzeCacheSize E"
proof (cases "map_of (analyzeCache s) (md5 E code)")
  case (Some r)
  from get_hit_size [OF Some, of "analyzeSize E"] assms show ?thesis
    by (simp add: analyzeCode_hit [OF Some])
next
  case None
  show ?thesis
  proof (cases "defaultCodeAnalyzer E (analyzerCalls (events s)) code")
    case (Inl err)
    then show ?thesis
      using assms by (simp add: analyzeCode_failed [OF None])
  next
    case (Inr r)
    then show ?thesis
      using assms by (simp add: analyzeCode_analyzed [OF None] LRUCache_set_within)
  qed
qed

lemma tryReadScriptAsString_state:
  "snd (tryReadScriptAsString E filePath s) =
     (case readFile E filePath of
        Inl readError \<Rightarrow> s
      | Inr content \<Rightarrow> snd (maybeTranspile E filePath content s))"
  by (simp add: tryReadScriptAsString_def
      split: sum.splits prod.splits outcome.splits TTranspileResult.splits)

lemma call_step_within: "withinBudgets E s \<Longrightarrow> withinBudgets E (call_step E s c)"
proof (cases c)
  case (CallMaybeTranspile filePath code)
  assume "withinBudgets E s"
  then show ?thesis
    by (simp add: withinBudgets_def CallMaybeTranspile maybeTranspile_within
        maybeTranspile_analyzeCache)
next
  case (CallTryReadScriptAsString filePath)
  assume "withinBudgets E s"
  then show ?thesis
    by (simp add: withinBudgets_def CallTryReadScriptAsString tryReadScriptAsString_state
        maybeTranspile_within maybeTranspile_analyzeCache split: sum.splits)
next
  case (CallAnalyzeCode code)
  assume "withinBudgets E s"
  then show ?thesis
    by (simp add: withinBudgets_def CallAnalyzeCode analyzeCode_within analyzeCode_transpileCache)
qed

lemma calls_within:
  "withinBudgets E s \<Longrightarrow> withinBudgets E (foldl (call_step E) s calls)"
  by (induction calls arbitrary: s) (simp_all add: call_step_within)

lemma serve_within: "withinBudgets E (serve E calls)"
  unfolding serve_def
  by (rule calls_within) (simp add: withinBudgets_def initialState_def accountedSize_Nil)

lemma file_scheme_is_not_node: "startsWith u ''file:'' \<Longrightarrow> \<not> startsWith u ''node:''"
  by (auto simp: startsWith_def)

lemma spec_urlPath_no_query: "CHR ''?'' \<notin> set u \<Longrightarrow> spec_urlPath u = u"
  by (auto simp: spec_urlPath_def)

section \<open>The examples evaluated\<close>

lemmas example_defs =
  workingEnv_def failingEnv_def brokenEnv_def smallEnv_def exampleMd5_def exampleCode_def
  exampleReadFile_def initialState_def

lemmas run_defs =
  maybeTranspile_def isNative_def endsWith_def Let_def emit_def LRUCache_get_def
  LRUCache_set_def transpileSize_def Error_def

lemma working_first_call:
  "maybeTranspile workingEnv ''/srv/app.ts'' exampleCode initialState =
     (Returns (ITranspileSuccessResult ''const x = 1;''),
      \<lparr>transpileCache = [(''352f5bbd9ad08d3d3625f0a622e4465c'', ''const x = 1;'')],
       analyzeCache = [],
       events = [EvMd5 ''const x = 1;'', EvTranspileCacheGet ''352f5bbd9ad08d3d3625f0a622e4465c'',
         EvTranspileCode ''const x = 1;'',
         EvTranspileCacheSet ''352f5bbd9ad08d3d3625f0a622e4465c'' ''const x = 1;'']\<rparr>)"
  by (simp add: example_defs run_defs evictLRU.simps accountedSize_def)

lemma failing_first_call:
  "maybeTranspile failingEnv ''/srv/app.ts'' ''const x = 1;'' initialState =
     (Returns (ITranspileErrorResult (Error ''Unexpected token'')),
      \<lparr>transpileCache = [], analyzeCache = [],
       events = [EvMd5 ''const x = 1;'', EvTranspileCacheGet ''352f5bbd9ad08d3d3625f0a622e4465c'',
         EvTranspileCode ''const x = 1;'']\<rparr>)"
  by (simp add: example_defs run_defs)

section \<open>Cache correctness of repeated transpilation\<close>

text \<open>
  C1, as the code has it: for a path that does not end in \<open>.js\<close> or \<open>.mjs\<close>, when a
  first call of \<open>maybeTranspile\<close> on content \<open>code\<close> returns a transpiled string
  \<open>t\<close> and the entry is retained (the digest's length plus the length of \<open>t\<close> is
  within \<open>maxTranspileCacheSize\<close>), a second call right after it returns the same
  string \<open>t\<close> without invoking the external transpiler, so that the transpiler is
  invoked at most once over both calls.
\<close>

theorem repeated_transpile_hits_cache:
  assumes "\<not> isNative filePath"
    and "maybeTranspile E filePath code s0 = (Returns (ITranspileSuccessResult t), s1)"
    and "transpileSize t (md5 E code) \<le> maxTranspileCacheSize E"
  shows "fst (maybeTranspile E filePath code s1) = Returns (ITranspileSuccessResult t) \<and>
     transpileCalls (events (snd (maybeTranspile E filePath code s1))) = transpileCalls (events s1) \<and>
     length (transpileCalls (events (snd (maybeTranspile E filePath code s1))))
       \<le> Suc (length (transpileCalls (events s0)))"
  using maybeTranspile_second_hit [OF assms(1) assms(1) assms(2) assms(3)] by blast

theorem repeated_transpile_hits_cache_witness:
  "\<not> isNative ''/srv/app.ts'' \<and>
   fst (maybeTranspile workingEnv ''/srv/app.ts'' exampleCode initialState)
     = Returns (ITranspileSuccessResult ''const x = 1;'') \<and>
   transpileSize ''const x = 1;'' (md5 workingEnv exampleCode) \<le> maxTranspileCacheSize workingEnv \<and>
   fst (maybeTranspile workingEnv ''/srv/app.ts'' exampleCode
     (snd (maybeTranspile workingEnv ''/srv/app.ts'' exampleCode initialState)))
     = Returns (ITranspileSuccessResult ''const x = 1;'') \<and>
   length (transpileCalls (events (snd (maybeTranspile workingEnv ''/srv/app.ts'' exampleCode
     (snd (maybeTranspile workingEnv ''/srv/app.ts'' exampleCode initialState)))))) \<le> 1"
proof -
  have a: "\<not> isNative ''/srv/app.ts''"
    by (simp add: isNative_def endsWith_def)
  have c: "transpileSize ''const x = 1;'' (md5 workingEnv exampleCode) \<le> maxTranspileCacheSize workingEnv"
    by (simp add: example_defs transpileSize_def)
  show ?thesis
    using a c repeated_transpile_hits_cache [OF a working_first_call c]
    by (simp add: working_first_call)
qed

text \<open>
  The claim as stated, for every content, fails where the transpiler rejects the
  content: nothing is cached, the second call invokes the transpiler again and
  returns no transpiled string.
\<close>

theorem failed_transpile_repeated_counterexample:
  "\<not> isNative ''/srv/app.ts'' \<and>
   fst (maybeTranspile failingEnv ''/srv/app.ts'' exampleCode
     (snd (maybeTranspile failingEnv ''/srv/app.ts'' exampleCode initialState)))
     = Returns (ITranspileErrorResult (Error ''Unexpected token'')) \<and>
   transpileCalls (events (snd (maybeTranspile failingEnv ''/srv/app.ts'' exampleCode
     (snd (maybeTranspile failingEnv ''/srv/app.ts'' exampleCode initialState)))))
     = [exampleCode, exampleCode]"
  by (simp add: example_defs run_defs)

section \<open>Pass-through of native files\<close>

text \<open>
  C2: for every code string and every file path ending in \<open>.js\<close> or \<open>.mjs\<close>,
  \<open>maybeTranspile\<close> returns the input unchanged and leaves the state as it was: no
  digest is computed, the transpile cache is neither read nor written and the external
  transpiler is not invoked (no event is recorded).
\<close>

theorem native_pass_through:
  "endsWith filePath ''.js'' \<or> endsWith filePath ''.mjs'' \<Longrightarrow>
     maybeTranspile E filePath code s = (Returns (ITranspileSuccessResult code), s) \<and>
     events (snd (maybeTranspile E filePath code s)) = events s \<and>
     transpileCache (snd (maybeTranspile E filePath code s)) = transpileCache s"
  by (simp add: maybeTranspile_def)

theorem native_pass_through_witness:
  "(endsWith ''/srv/lib.mjs'' ''.js'' \<or> endsWith ''/srv/lib.mjs'' ''.mjs'') \<and>
   maybeTranspile failingEnv ''/srv/lib.mjs'' exampleCode initialState
     = (Returns (ITranspileSuccessResult exampleCode), initialState)"
proof -
  have h: "endsWith ''/srv/lib.mjs'' ''.js'' \<or> endsWith ''/srv/lib.mjs'' ''.mjs''"
    by (simp add: endsWith_def)
  show ?thesis
    using h native_pass_through [OF h, of failingEnv exampleCode initialState] by simp
qed

section \<open>Failures are not cached\<close>

text \<open>
  C3: when the digest of \<open>code\<close> is not cached and the external transpiler fails for
  \<open>code\<close>, \<open>maybeTranspile\<close> returns that error, the transpile cache is as before (no
  \<open>set\<close> happened), and a following call with the same content invokes the transpiler
  again. Likewise for \<open>analyzeCode\<close>, the analyzer and the analysis cache.
\<close>

theorem failures_are_not_cached:
  "(\<not> isNative filePath \<and> \<not> isNative filePath' \<and>
    fst (LRUCache_get (md5 E code) (transpileCache s)) = None \<and>
    transpileCode E (transpileCalls (events s)) code = Rejected ex \<longrightarrow>
      fst (maybeTranspile E filePath code s) = Returns (ITranspileErrorResult ex) \<and>
      transpileCache (snd (maybeTranspile E filePath code s)) = transpileCache s \<and>
      \<not> list_ex isTranspileCacheSet (drop (length (events s))
          (events (snd (maybeTranspile E filePath code s)))) \<and>
      transpileCalls (events (snd (maybeTranspile E filePath' code
          (snd (maybeTranspile E filePath code s)))))
        = transpileCalls (events s) @ [code, code]) \<and>
   (fst (LRUCache_get (md5 E code) (analyzeCache s)) = None \<and>
    defaultCodeAnalyzer E (analyzerCalls (events s)) code = Inl err \<longrightarrow>
      fst (analyzeCode E code s) = AnalyzeError err \<and>
      analyzeCache (snd (analyzeCode E code s)) = analyzeCache s \<and>
      \<not> list_ex isAnalyzeCacheSet (drop (length (events s)) (events (snd (analyzeCode E code s)))) \<and>
      analyzerCalls (events (snd (analyzeCode E code (snd (analyzeCode E code s)))))
        = analyzerCalls (events s) @ [code, code])"
  using transpile_failure_not_cached [of filePath filePath' E code s ex]
    analysis_failure_not_cached [of E code s err]
  by blast

theorem failures_are_not_cached_witness:
  "\<not> isNative ''/srv/app.ts'' \<and>
   fst (LRUCache_get (md5 failingEnv exampleCode) (transpileCache (initialState :: string state))) = None \<and>
   transpileCode failingEnv (transpileCalls (events (initialState :: string state))) exampleCode
     = Rejected (Error ''Unexpected token'') \<and>
   fst (maybeTranspile failingEnv ''/srv/app.ts'' exampleCode (initialState :: string state))
     = Returns (ITranspileErrorResult (Error ''Unexpected token'')) \<and>
   transpileCache (snd (maybeTranspile failingEnv ''/srv/app.ts'' exampleCode
     (initialState :: string state))) = [] \<and>
   transpileCalls (events (snd (maybeTranspile failingEnv ''/srv/app.ts'' exampleCode
     (snd (maybeTranspile failingEnv ''/srv/app.ts'' exampleCode (initialState :: string state))))))
     = [exampleCode, exampleCode] \<and>
   fst (LRUCache_get (md5 failingEnv exampleCode) (analyzeCache (initialState :: string state))) = None \<and>
   defaultCodeAnalyzer failingEnv (analyzerCalls (events (initialState :: string state))) exampleCode
     = Inl (Error ''Unexpected token'') \<and>
   fst (analyzeCode failingEnv exampleCode (initialState :: string state))
     = AnalyzeError (Error ''Unexpected token'') \<and>
   analyzeCache (snd (analyzeCode failingEnv exampleCode (initialState :: string state))) = [] \<and>
   analyzerCalls (events (snd (analyzeCode failingEnv exampleCode
     (snd (analyzeCode failingEnv exampleCode (initialState :: string state))))))
     = [exampleCode, exampleCode]"
proof -
  have a: "\<not> isNative ''/srv/app.ts''"
    by (simp add: isNative_def endsWith_def)
  have b: "fst (LRUCache_get (md5 failingEnv exampleCode)
      (transpileCache (initialState :: string state))) = None"
    by (simp add: LRUCache_get_def initialState_def)
  have c: "transpileCode failingEnv (transpileCalls (events (initialState :: string state)))
      exampleCode = Rejected (Error ''Unexpected token'')"
    by (simp add: failingEnv_def)
  have d: "fst (LRUCache_get (md5 failingEnv exampleCode)
      (analyzeCache (initialState :: string state))) = None"
    by (simp add: LRUCache_get_def initialState_def)
  have e: "defaultCodeAnalyzer failingEnv (analyzerCalls (events (initialState :: string state)))
      exampleCode = Inl (Error ''Unexpected token'')"
    by (simp add: failingEnv_def)
  have i: "transpileCache (initialState :: string state) = []"
    "analyzeCache (initialState :: string state) = []"
    "events (initialState :: string state) = []"
    by (simp_all add: initialState_def)
  show ?thesis
    using a b c d e
      failures_are_not_cached [of "''/srv/app.ts''" "''/srv/app.ts''" failingEnv exampleCode
        "initialState :: string state" "Error ''Unexpected token''" "Error ''Unexpected token''"]
    unfolding i by simp
qed

section \<open>Import resolution\<close>

text \<open>
  C4: for every importer and specifier, when the resolution algorithm throws, that
  error is the result; when it resolves to a URL of the \<open>node:\<close> scheme or of any other
  scheme than \<open>file:\<close>, the result is an error saying that the scheme is not supported
  (the two errors of the source that the specification names UnsupportedScheme); and
  when it resolves to a \<open>file:\<close> URL, the result is the file path that \<open>fileURLToPath\<close>
  gives for it.
\<close>

theorem resolve_import_policy:
  "(resolveImport R specifier (pathToFileURL R importer) = Inl err \<longrightarrow>
      defaultResolveImportPath R importer specifier = ResolveError err) \<and>
   (resolveImport R specifier (pathToFileURL R importer) = Inr u \<and> startsWith u ''node:'' \<longrightarrow>
      defaultResolveImportPath R importer specifier
        = ResolveError (Error (''node imports are not supported, got '' @ quoted u))) \<and>
   (resolveImport R specifier (pathToFileURL R importer) = Inr u \<and>
    \<not> startsWith u ''node:'' \<and> \<not> startsWith u ''file:'' \<longrightarrow>
      defaultResolveImportPath R importer specifier
        = ResolveError (Error (''only file imports are supported, got '' @ quoted u))) \<and>
   (resolveImport R specifier (pathToFileURL R importer) = Inr u \<and> startsWith u ''file:'' \<longrightarrow>
      defaultResolveImportPath R importer specifier = ResolveSuccess (fileURLToPath R u))"
  using file_scheme_is_not_node [of u]
  by (auto simp: defaultResolveImportPath_def Let_def)

theorem resolve_import_policy_witness:
  "resolveImport exampleResolver ''./missing.ts'' (pathToFileURL exampleResolver ''/srv/app.ts'')
     = Inl (JsError (Some ''ERR_MODULE_NOT_FOUND'') ''Cannot find package'') \<and>
   defaultResolveImportPath exampleResolver ''/srv/app.ts'' ''./missing.ts''
     = ResolveError (JsError (Some ''ERR_MODULE_NOT_FOUND'') ''Cannot find package'') \<and>
   resolveImport exampleResolver ''node:fs'' (pathToFileURL exampleResolver ''/srv/app.ts'')
     = Inr ''node:fs'' \<and> startsWith ''node:fs'' ''node:'' \<and>
   defaultResolveImportPath exampleResolver ''/srv/app.ts'' ''node:fs''
     = ResolveError (Error (''node imports are not supported, got '' @ quoted ''node:fs'')) \<and>
   resolveImport exampleResolver ''https://example.org/x.js''
       (pathToFileURL exampleResolver ''/srv/app.ts'')
     = Inr ''https://example.org/x.js'' \<and>
   \<not> startsWith ''https://example.org/x.js'' ''node:'' \<and>
   \<not> startsWith ''https://example.org/x.js'' ''file:'' \<and>
   defaultResolveImportPath exampleResolver ''/srv/app.ts'' ''https://example.org/x.js''
     = ResolveError (Error (''only file imports are supported, got ''
         @ quoted ''https://example.org/x.js'')) \<and>
   resolveImport exampleResolver ''./util.ts'' (pathToFileURL exampleResolver ''/srv/app.ts'')
     = Inr ''file:///srv/util.ts'' \<and> startsWith ''file:///srv/util.ts'' ''file:'' \<and>
   defaultResolveImportPath exampleResolver ''/srv/app.ts'' ''./util.ts''
     = ResolveSuccess ''/srv/util.ts''"
proof -
  have r1: "resolveImport exampleResolver ''./missing.ts''
      (pathToFileURL exampleResolver ''/srv/app.ts'')
      = Inl (JsError (Some ''ERR_MODULE_NOT_FOUND'') ''Cannot find package'')"
    and r2: "resolveImport exampleResolver ''node:fs''
      (pathToFileURL exampleResolver ''/srv/app.ts'') = Inr ''node:fs''"
    and r3: "resolveImport exampleResolver ''https://example.org/x.js''
      (pathToFileURL exampleResolver ''/srv/app.ts'') = Inr ''https://example.org/x.js''"
    and r4: "resolveImport exampleResolver ''./util.ts''
      (pathToFileURL exampleResolver ''/srv/app.ts'') = Inr ''file:///srv/util.ts''"
    and p: "fileURLToPath exampleResolver ''file:///srv/util.ts'' = ''/srv/util.ts''"
    by (simp_all add: exampleResolver_def)
  have s2: "startsWith ''node:fs'' ''node:''"
    and s3: "\<not> startsWith ''https://example.org/x.js'' ''node:''"
      "\<not> startsWith ''https://example.org/x.js'' ''file:''"
    and s4: "startsWith ''file:///srv/util.ts'' ''file:''"
    by (simp_all add: startsWith_def)
  show ?thesis
    using r1 r2 r3 r4 s2 s3 s4
      resolve_import_policy [of exampleResolver "''./missing.ts''" "''/srv/app.ts''"
        "JsError (Some ''ERR_MODULE_NOT_FOUND'') ''Cannot find package''" "''node:fs''"]
      resolve_import_policy [of exampleResolver "''node:fs''" "''/srv/app.ts''"
        "JsError None []" "''node:fs''"]
      resolve_import_policy [of exampleResolver "''https://example.org/x.js''" "''/srv/app.ts''"
        "JsError None []" "''https://example.org/x.js''"]
      resolve_import_policy [of exampleResolver "''./util.ts''" "''/srv/app.ts''"
        "JsError None []" "''file:///srv/util.ts''"]
    by (simp add: p)
qed

section \<open>Read errors\<close>

text \<open>
  C5: \<open>tryReadScriptAsString\<close> turns a read failure with code \<open>ENOENT\<close> into a
  \<open>FILE_NOT_FOUND\<close> error and every other read failure into an \<open>IO_ERROR\<close>; a transpile
  failure becomes an \<open>IO_ERROR\<close> as well. In each case the cause is the original error.
  A failed read thus has code \<open>FILE_NOT_FOUND\<close> exactly when the file was missing, and
  \<open>IO_ERROR\<close> for both other kinds of failure.
\<close>

theorem read_error_mapping:
  "(readFile E filePath = Inl readError \<and> errCode readError = Some ''ENOENT'' \<longrightarrow>
      tryReadScriptAsString E filePath s
        = (Returns (ReadFailed (ReadError FILE_NOT_FOUND (errMessage readError) readError)), s)) \<and>
   (readFile E filePath = Inl readError \<and> errCode readError \<noteq> Some ''ENOENT'' \<longrightarrow>
      tryReadScriptAsString E filePath s
        = (Returns (ReadFailed (ReadError IO_ERROR (errMessage readError) readError)), s)) \<and>
   (readFile E filePath = Inr content \<and>
    maybeTranspile E filePath content s = (Returns (ITranspileErrorResult transpileError), s') \<longrightarrow>
      tryReadScriptAsString E filePath s
        = (Returns (ReadFailed (ReadError IO_ERROR
             (''failed to transpile code of '' @ quoted filePath) transpileError)), s')) \<and>
   (fst (tryReadScriptAsString E filePath s) = Returns (ReadFailed failure) \<longrightarrow>
      (readCode failure = FILE_NOT_FOUND) =
        (\<exists>e. readFile E filePath = Inl e \<and> errCode e = Some ''ENOENT'') \<and>
      (readCode failure = IO_ERROR) =
        (\<not> (\<exists>e. readFile E filePath = Inl e \<and> errCode e = Some ''ENOENT'')))"
  by (auto simp: tryReadScriptAsString_def createReadError_def
      split: sum.splits prod.splits outcome.splits TTranspileResult.splits if_splits)

theorem read_error_mapping_witness:
  "readFile workingEnv ''/srv/missing.ts''
     = Inl (JsError (Some ''ENOENT'') ''ENOENT: no such file or directory'') \<and>
   fst (tryReadScriptAsString workingEnv ''/srv/missing.ts'' (initialState :: string state))
     = Returns (ReadFailed (ReadError FILE_NOT_FOUND ''ENOENT: no such file or directory''
         (JsError (Some ''ENOENT'') ''ENOENT: no such file or directory''))) \<and>
   readFile workingEnv ''/srv/locked.ts''
     = Inl (JsError (Some ''EACCES'') ''EACCES: permission denied'') \<and>
   fst (tryReadScriptAsString workingEnv ''/srv/locked.ts'' (initialState :: string state))
     = Returns (ReadFailed (ReadError IO_ERROR ''EACCES: permission denied''
         (JsError (Some ''EACCES'') ''EACCES: permission denied''))) \<and>
   readFile failingEnv ''/srv/app.ts'' = Inr ''const x = 1;'' \<and>
   fst (maybeTranspile failingEnv ''/srv/app.ts'' ''const x = 1;'' (initialState :: string state))
     = Returns (ITranspileErrorResult (Error ''Unexpected token'')) \<and>
   fst (tryReadScriptAsString failingEnv ''/srv/app.ts'' (initialState :: string state))
     = Returns (ReadFailed (ReadError IO_ERROR
         (''failed to transpile code of '' @ quoted ''/srv/app.ts'') (Error ''Unexpected token'')))"
proof -
  have r1: "readFile workingEnv ''/srv/missing.ts''
      = Inl (JsError (Some ''ENOENT'') ''ENOENT: no such file or directory'')"
    and r2: "readFile workingEnv ''/srv/locked.ts''
      = Inl (JsError (Some ''EACCES'') ''EACCES: permission denied'')"
    and r3: "readFile failingEnv ''/srv/app.ts'' = Inr ''const x = 1;''"
    by (simp_all add: example_defs)
  show ?thesis
    using r1 r2 r3
      read_error_mapping [of workingEnv "''/srv/missing.ts''"
        "JsError (Some ''ENOENT'') ''ENOENT: no such file or directory''"
        "initialState :: string state" "''''" "Error ''''" "initialState :: string state"]
      read_error_mapping [of workingEnv "''/srv/locked.ts''"
        "JsError (Some ''EACCES'') ''EACCES: permission denied''"
        "initialState :: string state" "''''" "Error ''''" "initialState :: string state"]
      read_error_mapping [of failingEnv "''/srv/app.ts''" "Error ''''"
        "initialState :: string state" "''const x = 1;''" "Error ''Unexpected token''"
        "snd (maybeTranspile failingEnv ''/srv/app.ts'' ''const x = 1;'' (initialState :: string state))"]
    by (simp add: failing_first_call)
qed

section \<open>Byte budget and eviction order\<close>

text \<open>
  C6: the accounted size of a cache (the sum over its entries of key length plus the
  value's size estimate) never exceeds the configured maximum: after any sequence of
  \<open>get\<close> and \<open>set\<close> on an empty cache, and for both caches of the router after any
  sequence of calls. A \<open>set\<close> of an entry that fits keeps the new entry and the most
  recently used of the other entries, evicting from the least recently used end and no
  more than needed to stay within the budget. A \<open>get\<close> that hits moves the entry to the
  most recently used position, and the entry accessed last is gone after the next
  \<open>set\<close> of another key only if no older entry remains.
\<close>

theorem byte_budget_lru:
  "accountedSize sz (cache_run policy sz maxSize ops) \<le> maxSize \<and>
   accountedSize transpileSize (transpileCache (serve E calls)) \<le> maxTranspileCacheSize E \<and>
   accountedSize (analyzeSize E) (analyzeCache (serve E calls)) \<le> maxAnalyzeCacheSize E \<and>
   (sz v key \<le> maxSize \<longrightarrow>
      (\<exists>n. n \<le> length (filter (\<lambda>e. fst e \<noteq> key) es) \<and>
         LRUCache_set policy sz maxSize key v es
           = (key, v) # take n (filter (\<lambda>e. fst e \<noteq> key) es) \<and>
         (n < length (filter (\<lambda>e. fst e \<noteq> key) es) \<longrightarrow>
            maxSize < sz v key
              + accountedSize sz (take (Suc n) (filter (\<lambda>e. fst e \<noteq> key) es))))) \<and>
   (fst (LRUCache_get key es) = Some v \<longrightarrow>
      snd (LRUCache_get key es) = (key, v) # filter (\<lambda>e. fst e \<noteq> key) es) \<and>
   (fst (LRUCache_get key es) = Some v \<and> key' \<noteq> key \<and>
    key \<notin> fst ` set (LRUCache_set policy sz maxSize key' v' (snd (LRUCache_get key es))) \<longrightarrow>
      filter (\<lambda>e. fst e \<noteq> key')
        (LRUCache_set policy sz maxSize key' v' (snd (LRUCache_get key es))) = [])"
proof (intro conjI impI)
  show "accountedSize sz (cache_run policy sz maxSize ops) \<le> maxSize"
    by (rule cache_run_within)
  show "accountedSize transpileSize (transpileCache (serve E calls)) \<le> maxTranspileCacheSize E"
    using serve_within [of E calls] by (simp add: withinBudgets_def)
  show "accountedSize (analyzeSize E) (analyzeCache (serve E calls)) \<le> maxAnalyzeCacheSize E"
    using serve_within [of E calls] by (simp add: withinBudgets_def)
  show "\<exists>n. n \<le> length (filter (\<lambda>e. fst e \<noteq> key) es) \<and>
         LRUCache_set policy sz maxSize key v es
           = (key, v) # take n (filter (\<lambda>e. fst e \<noteq> key) es) \<and>
         (n < length (filter (\<lambda>e. fst e \<noteq> key) es) \<longrightarrow>
            maxSize < sz v key
              + accountedSize sz (take (Suc n) (filter (\<lambda>e. fst e \<noteq> key) es)))"
    if "sz v key \<le> maxSize"
    using that by (rule LRUCache_set_shape)
  show "snd (LRUCache_get key es) = (key, v) # filter (\<lambda>e. fst e \<noteq> key) es"
    if "fst (LRUCache_get key es) = Some v"
    using that by (simp add: fst_LRUCache_get LRUCache_get_hit)
  show "filter (\<lambda>e. fst e \<noteq> key')
      (LRUCache_set policy sz maxSize key' v' (snd (LRUCache_get key es))) = []"
    if "fst (LRUCache_get key es) = Some v \<and> key' \<noteq> key \<and>
      key \<notin> fst ` set (LRUCache_set policy sz maxSize key' v' (snd (LRUCache_get key es)))"
    using that recently_used_outlives_all_older [of key es v key' policy sz maxSize v'] by blast
qed

text \<open>
  With a budget of 10 and sizes 6, 4 and 2: after \<open>a\<close> and \<open>b\<close> were set and \<open>a\<close> was
  read, setting \<open>c\<close> evicts \<open>b\<close>, the older entry, and keeps \<open>a\<close>.
\<close>

theorem byte_budget_lru_witness:
  "accountedSize transpileSize (cache_run RejectOutright transpileSize 10
     [Set ''a'' ''12345'', Set ''b'' ''123'', Get ''a'', Set ''c'' ''1'']) \<le> 10 \<and>
   cache_run RejectOutright transpileSize 10
     [Set ''a'' ''12345'', Set ''b'' ''123'', Get ''a'', Set ''c'' ''1'']
     = [(''c'', ''1''), (''a'', ''12345'')] \<and>
   accountedSize transpileSize (transpileCache (serve workingEnv
     [CallMaybeTranspile ''/srv/app.ts'' exampleCode, CallAnalyzeCode exampleCode]))
     \<le> maxTranspileCacheSize workingEnv \<and>
   transpileSize ''1'' ''c'' \<le> 10 \<and>
   LRUCache_set RejectOutright transpileSize 10 ''c'' ''1'' [(''a'', ''12345''), (''b'', ''123'')]
     = [(''c'', ''1''), (''a'', ''12345'')] \<and>
   fst (LRUCache_get ''a'' [(''b'', ''123''), (''a'', ''12345'')]) = Some ''12345'' \<and>
   snd (LRUCache_get ''a'' [(''b'', ''123''), (''a'', ''12345'')])
     = [(''a'', ''12345''), (''b'', ''123'')]"
  using byte_budget_lru [of transpileSize RejectOutright 10
      "[Set ''a'' ''12345'', Set ''b'' ''123'', Get ''a'', Set ''c'' ''1'']" workingEnv
      "[CallMaybeTranspile ''/srv/app.ts'' exampleCode, CallAnalyzeCode exampleCode]"
      "''12345''" "''a''" "[(''b'', ''123''), (''a'', ''12345'')]" "''c''" "''1''"]
  by (simp add: cache_run_def LRUCache_get_def LRUCache_set_def transpileSize_def Let_def
      evictLRU.simps accountedSize_def)

section \<open>Content addressing\<close>

text \<open>
  C7, as the code has it: the cache key is the digest of the content alone. For two
  paths that do not end in \<open>.js\<close> or \<open>.mjs\<close>, \<open>maybeTranspile\<close> does the same on the
  same content and state whatever the path; and when the call for the first path
  returns a transpiled string \<open>t\<close> whose entry fits the byte budget, the call for the
  second path with the same content returns \<open>t\<close> from the cache without invoking the
  transpiler (at most one invocation over both calls), and the cache holds exactly one
  entry under the digest.
\<close>

theorem content_addressed_cache:
  assumes "\<not> isNative filePath1" and "\<not> isNative filePath2"
  shows "maybeTranspile E filePath1 code s0 = maybeTranspile E filePath2 code s0 \<and>
     (maybeTranspile E filePath1 code s0 = (Returns (ITranspileSuccessResult t), s1) \<and>
      transpileSize t (md5 E code) \<le> maxTranspileCacheSize E \<longrightarrow>
        fst (maybeTranspile E filePath2 code s1) = Returns (ITranspileSuccessResult t) \<and>
        transpileCalls (events (snd (maybeTranspile E filePath2 code s1)))
          = transpileCalls (events s1) \<and>
        length (transpileCalls (events (snd (maybeTranspile E filePath2 code s1))))
          \<le> Suc (length (transpileCalls (events s0))) \<and>
        filter (\<lambda>e. fst e = md5 E code)
            (transpileCache (snd (maybeTranspile E filePath2 code s1)))
          = [(md5 E code, t)])"
  using maybeTranspile_path_independent [OF assms, of E code s0]
    maybeTranspile_second_hit [OF assms, of E code s0 t s1]
  by blast

theorem content_addressed_cache_witness:
  "\<not> isNative ''/srv/app.ts'' \<and> \<not> isNative ''/srv/copy.ts'' \<and>
   fst (maybeTranspile workingEnv ''/srv/app.ts'' exampleCode initialState)
     = Returns (ITranspileSuccessResult ''const x = 1;'') \<and>
   transpileSize ''const x = 1;'' (md5 workingEnv exampleCode) \<le> maxTranspileCacheSize workingEnv \<and>
   fst (maybeTranspile workingEnv ''/srv/copy.ts'' exampleCode
     (snd (maybeTranspile workingEnv ''/srv/app.ts'' exampleCode initialState)))
     = Returns (ITranspileSuccessResult ''const x = 1;'') \<and>
   transpileCalls (events (snd (maybeTranspile workingEnv ''/srv/copy.ts'' exampleCode
     (snd (maybeTranspile workingEnv ''/srv/app.ts'' exampleCode initialState)))))
     = [''const x = 1;''] \<and>
   filter (\<lambda>e. fst e = md5 workingEnv exampleCode)
     (transpileCache (snd (maybeTranspile workingEnv ''/srv/copy.ts'' exampleCode
       (snd (maybeTranspile workingEnv ''/srv/app.ts'' exampleCode initialState)))))
     = [(''352f5bbd9ad08d3d3625f0a622e4465c'', ''const x = 1;'')]"
proof -
  have a: "\<not> isNative ''/srv/app.ts''" and b: "\<not> isNative ''/srv/copy.ts''"
    by (simp_all add: isNative_def endsWith_def)
  have c: "transpileSize ''const x = 1;'' (md5 workingEnv exampleCode) \<le> maxTranspileCacheSize workingEnv"
    by (simp add: example_defs transpileSize_def)
  have d: "md5 workingEnv exampleCode = ''352f5bbd9ad08d3d3625f0a622e4465c''"
    by (simp add: example_defs)
  note second = content_addressed_cache [OF a b, THEN conjunct2, rule_format,
      OF conjI, OF working_first_call c]
  show ?thesis
    using a b c second by (simp add: d working_first_call)
qed

text \<open>
  The claim as stated fails in two ways. Where the transpiler rejects the content,
  the two calls invoke it twice and no entry is made; and where the entry exceeds the
  byte budget (here \<open>maxTranspileCacheSize = 16\<close>, less than the digest alone), each of
  the two successful calls invokes the transpiler and the cache stays empty.
\<close>

theorem shared_entry_counterexample:
  "\<not> isNative ''/srv/app.ts'' \<and> \<not> isNative ''/srv/copy.ts'' \<and>
   transpileCalls (events (snd (maybeTranspile failingEnv ''/srv/copy.ts'' exampleCode
     (snd (maybeTranspile failingEnv ''/srv/app.ts'' exampleCode initialState)))))
     = [exampleCode, exampleCode] \<and>
   transpileCache (snd (maybeTranspile failingEnv ''/srv/copy.ts'' exampleCode
     (snd (maybeTranspile failingEnv ''/srv/app.ts'' exampleCode initialState)))) = [] \<and>
   fst (maybeTranspile smallEnv ''/srv/app.ts'' exampleCode initialState)
     = Returns (ITranspileSuccessResult exampleCode) \<and>
   transpileCalls (events (snd (maybeTranspile smallEnv ''/srv/copy.ts'' exampleCode
     (snd (maybeTranspile smallEnv ''/srv/app.ts'' exampleCode initialState)))))
     = [exampleCode, exampleCode] \<and>
   transpileCache (snd (maybeTranspile smallEnv ''/srv/copy.ts'' exampleCode
     (snd (maybeTranspile smallEnv ''/srv/app.ts'' exampleCode initialState)))) = []"
  by (simp add: example_defs run_defs)

section \<open>A transpiler that yields no string\<close>

text \<open>
  C8: when the digest is not cached and the external transpiler returns without
  throwing but its \<open>transpiledCode\<close> is undefined, \<open>maybeTranspile\<close> throws the error
  \<open>BUG: transpiled code is undefined\<close>; it returns no outcome (neither a transpiled
  string nor a recoverable error) and does not write the cache.
\<close>

theorem undefined_transpiled_is_fatal:
  assumes "\<not> isNative filePath"
    and "fst (LRUCache_get (md5 E code) (transpileCache s)) = None"
    and "transpileCode E (transpileCalls (events s)) code = Resolved None"
  shows "fst (maybeTranspile E filePath code s) = Throws (Error ''BUG: transpiled code is undefined'') \<and>
     (\<forall>r. fst (maybeTranspile E filePath code s) \<noteq> Returns r) \<and>
     transpileCache (snd (maybeTranspile E filePath code s)) = transpileCache s \<and>
     events (snd (maybeTranspile E filePath code s))
       = events s @ [EvMd5 code, EvTranspileCacheGet (md5 E code), EvTranspileCode code] \<and>
     \<not> list_ex isTranspileCacheSet (drop (length (events s))
         (events (snd (maybeTranspile E filePath code s))))"
proof -
  have miss: "map_of (transpileCache s) (md5 E code) = None"
    using assms(2) by (simp add: fst_LRUCache_get)
  show ?thesis
    by (simp add: maybeTranspile_undefined [OF assms(1) miss assms(3)])
qed

theorem undefined_transpiled_is_fatal_witness:
  "\<not> isNative ''/srv/app.ts'' \<and>
   fst (LRUCache_get (md5 brokenEnv exampleCode) (transpileCache (initialState :: string state))) = None \<and>
   transpileCode brokenEnv (transpileCalls (events (initialState :: string state))) exampleCode
     = Resolved None \<and>
   fst (maybeTranspile brokenEnv ''/srv/app.ts'' exampleCode (initialState :: string state))
     = Throws (Error ''BUG: transpiled code is undefined'') \<and>
   transpileCache (snd (maybeTranspile brokenEnv ''/srv/app.ts'' exampleCode
     (initialState :: string state))) = [] \<and>
   events (snd (maybeTranspile brokenEnv ''/srv/app.ts'' exampleCode (initialState :: string state)))
     = [EvMd5 exampleCode, EvTranspileCacheGet ''352f5bbd9ad08d3d3625f0a622e4465c'',
        EvTranspileCode exampleCode]"
proof -
  have a: "\<not> isNative ''/srv/app.ts''"
    by (simp add: isNative_def endsWith_def)
  have b: "fst (LRUCache_get (md5 brokenEnv exampleCode)
      (transpileCache (initialState :: string state))) = None"
    by (simp add: LRUCache_get_def initialState_def)
  have c: "transpileCode brokenEnv (transpileCalls (events (initialState :: string state)))
      exampleCode = Resolved None"
    by (simp add: brokenEnv_def)
  have d: "md5 brokenEnv exampleCode = ''352f5bbd9ad08d3d3625f0a622e4465c''"
    by (simp add: brokenEnv_def workingEnv_def exampleMd5_def exampleCode_def)
  have e: "transpileCache (initialState :: string state) = []"
    "events (initialState :: string state) = []"
    by (simp_all add: initialState_def)
  show ?thesis
    using a b c undefined_transpiled_is_fatal [OF a b c] unfolding d e by simp
qed

section \<open>Classification of requests\<close>

text \<open>
  C9, as the code has it: a request whose method is not \<open>HEAD\<close> is a script request if
  and only if \<open>req.url\<close>, the request URL with its query string, ends with one of the
  configured \<open>fileEndings\<close>; a script request is handed to the debug core with that
  URL, and every other such request falls through to static serving of \<open>baseFolder\<close>.
  Where the URL has no query string this is the test on the URL path.
\<close>

theorem script_classification:
  assumes "req_method req \<noteq> ''HEAD''"
  shows "expressRouter baseFolder fileEndings req =
       (if list_ex (\<lambda>ending. endsWith (req_url req) ending) fileEndings
        then DebugCore (req_url req) else ExpressStatic baseFolder) \<and>
     (expressRouter baseFolder fileEndings req = DebugCore (req_url req)) =
       (\<exists>ending \<in> set fileEndings. endsWith (req_url req) ending) \<and>
     (CHR ''?'' \<notin> set (req_url req) \<longrightarrow>
        (expressRouter baseFolder fileEndings req = DebugCore (req_url req)) =
          spec_isScript fileEndings req)"
  using assms
  by (simp add: expressRouter_def scriptMiddleware_def Let_def spec_isScript_def
      spec_urlPath_no_query list_ex_iff)

theorem script_classification_witness:
  "req_method (getRequest ''/app.ts'') \<noteq> ''HEAD'' \<and>
   expressRouter ''/srv'' defaultFileEndings (getRequest ''/app.ts'') = DebugCore ''/app.ts'' \<and>
   CHR ''?'' \<notin> set (req_url (getRequest ''/app.ts'')) \<and>
   spec_isScript defaultFileEndings (getRequest ''/app.ts'') \<and>
   req_method (getRequest ''/styles.css'') \<noteq> ''HEAD'' \<and>
   expressRouter ''/srv'' defaultFileEndings (getRequest ''/styles.css'') = ExpressStatic ''/srv''"
  using script_classification [of "getRequest ''/app.ts''" "''/srv''" defaultFileEndings]
    script_classification [of "getRequest ''/styles.css''" "''/srv''" defaultFileEndings]
  by (auto simp: getRequest_def defaultFileEndings_def endsWith_def)

text \<open>
  The claim as stated fails in two ways. A \<open>GET\<close> of \<open>/app.ts?v=1\<close> has a URL path
  ending in \<open>.ts\<close>, yet the middleware tests \<open>req.url\<close>, which ends in \<open>?v=1\<close>, and
  passes the request on to static serving. A \<open>HEAD\<close> request for \<open>/styles.css\<close> is not a
  script request, yet it does not reach static serving: the middleware throws.
\<close>

theorem script_classification_counterexample:
  "spec_isScript defaultFileEndings (getRequest ''/app.ts?v=1'') \<and>
   expressRouter ''/srv'' defaultFileEndings (getRequest ''/app.ts?v=1'') = ExpressStatic ''/srv'' \<and>
   \<not> spec_isScript defaultFileEndings (headRequest ''/styles.css'') \<and>
   expressRouter ''/srv'' defaultFileEndings (headRequest ''/styles.css'')
     = RouterThrown (Error ''HEAD not supported yet'')"
  by (simp add: spec_isScript_def spec_urlPath_def expressRouter_def scriptMiddleware_def
      getRequest_def headRequest_def defaultFileEndings_def endsWith_def)

section \<open>HEAD requests\<close>

text \<open>
  C10: for every request whose method is \<open>HEAD\<close>, whatever its URL and whatever the
  configured file endings, the middleware throws \<open>HEAD not supported yet\<close> before it
  looks at the URL; the request reaches neither the debug core nor static serving.
\<close>

theorem head_request_throws:
  assumes "req_method req = ''HEAD''"
  shows "scriptMiddleware fileEndings req = Thrown (Error ''HEAD not supported yet'') \<and>
     expressRouter baseFolder fileEndings req = RouterThrown (Error ''HEAD not supported yet'') \<and>
     expressRouter baseFolder fileEndings req \<noteq> ExpressStatic baseFolder \<and>
     (\<forall>uri. expressRouter baseFolder fileEndings req \<noteq> DebugCore uri)"
  using assms by (simp add: scriptMiddleware_def expressRouter_def)

theorem head_request_throws_witness:
  "req_method (headRequest ''/styles.css'') = ''HEAD'' \<and>
   expressRouter ''/srv'' defaultFileEndings (headRequest ''/styles.css'')
     = RouterThrown (Error ''HEAD not supported yet'') \<and>
   req_method (headRequest ''/app.ts'') = ''HEAD'' \<and>
   expressRouter ''/srv'' defaultFileEndings (headRequest ''/app.ts'')
     = RouterThrown (Error ''HEAD not supported yet'')"
  using head_request_throws [of "headRequest ''/styles.css''" defaultFileEndings "''/srv''"]
    head_request_throws [of "headRequest ''/app.ts''" defaultFileEndings "''/srv''"]
  by (simp add: headRequest_def)

end
